theory Spec2Isabelle
  imports Main "HOL-Library.Log_Nat"
begin

section \<open>JavaScript numbers\<close>

text \<open>
  A finite JavaScript number is an IEEE 754 binary64 value, hence a rational. Numbers are
  modelled as rationals, and every arithmetic operation of the source as the exact
  operation followed by \<open>fl\<close>, rounding to the nearest binary64 value, ties to even
  (53 significant bits, gradual underflow below \<open>2 ^ - 1022\<close>). NaN, the infinities,
  the sign of zero and overflow beyond the largest finite value are not represented.
\<close>

type_synonym number = rat

definition pow2 :: "int \<Rightarrow> rat" where
  "pow2 k = (if 0 \<le> k then 2 ^ nat k else 1 / 2 ^ nat (- k))"

text \<open>\<open>ilog2 x\<close> is the binary exponent of a positive \<open>x\<close>: \<open>2 ^ ilog2 x \<le> x < 2 ^ (ilog2 x + 1)\<close>.\<close>

definition ilog2 :: "rat \<Rightarrow> int" where
  "ilog2 x = (let (p, q) = quotient_of x; d = bitlen p - bitlen q
              in if pow2 d \<le> x then d else d - 1)"

definition round_even :: "rat \<Rightarrow> int" where
  "round_even x = (let f = \<lfloor>x\<rfloor>; d = x - of_int f
     in if d < 1 / 2 then f else if 1 / 2 < d then f + 1 else if even f then f else f + 1)"

definition fl :: "rat \<Rightarrow> number" where
  "fl x = (if x = 0 then 0
           else let e = max (ilog2 \<bar>x\<bar>) (- 1022) - 52
                in of_int (round_even (x / pow2 e)) * pow2 e)"

definition js_mul :: "number \<Rightarrow> number \<Rightarrow> number" where
  "js_mul x y = fl (x * y)"

definition js_add :: "number \<Rightarrow> number \<Rightarrow> number" where
  "js_add x y = fl (x + y)"

text \<open>\<open>Math.round\<close>: the nearest integer, a tie going up.\<close>

definition Math_round :: "number \<Rightarrow> int" where
  "Math_round x = \<lfloor>x + 1 / 2\<rfloor>"

section \<open>canvas.ts: colours\<close>

text \<open>\<open>Number.prototype.toString(16)\<close> on an integer, and \<open>padStart(2, '0')\<close>.\<close>

definition hex_digit :: "nat \<Rightarrow> char" where
  "hex_digit d = ''0123456789abcdef'' ! d"

function hex_digits :: "nat \<Rightarrow> string" where
  "hex_digits n = (if n < 16 then [hex_digit n] else hex_digits (n div 16) @ [hex_digit (n mod 16)])"
  by pat_completeness auto
termination
  by (relation "measure id") auto

declare hex_digits.simps [simp del]

definition toString16 :: "int \<Rightarrow> string" where
  "toString16 n = (if n < 0 then CHR ''-'' # hex_digits (nat (- n)) else hex_digits (nat n))"

definition padStart2 :: "string \<Rightarrow> string" where
  "padStart2 s = (if length s < 2 then replicate (2 - length s) CHR ''0'' @ s else s)"

text \<open>
  \<open>RGB | RGBA\<close>: the three channels, and the alpha channel when the object has an \<open>a\<close>
  property.
\<close>

record Color =
  chan_r :: number
  chan_g :: number
  chan_b :: number
  chan_a :: "number option"

record ExtractedColor =
  ec_r :: number
  ec_g :: number
  ec_b :: number
  ec_a :: number
  ec_hex :: string

definition channel_hex :: "number \<Rightarrow> string" where
  "channel_hex c = padStart2 (toString16 (Math_round (js_mul c 255)))"

definition extractColor :: "Color \<Rightarrow> ExtractedColor" where
  "extractColor color =
     \<lparr>ec_r = chan_r color, ec_g = chan_g color, ec_b = chan_b color,
      ec_a = (case chan_a color of Some alpha \<Rightarrow> alpha | None \<Rightarrow> 1),
      ec_hex = CHR ''#'' # channel_hex (chan_r color) @ channel_hex (chan_g color)
                 @ channel_hex (chan_b color)\<rparr>"

section \<open>canvas.ts: paints\<close>

text \<open>
  A paint as \<open>extractPaints\<close> reads it: the discriminant \<open>type\<close>, the \<open>opacity\<close> when
  the property is there, the \<open>color\<close> when the property is there. No other property of a
  paint is read.
\<close>

record Paint =
  paint_type :: string
  paint_opacity :: "number option"
  paint_color :: "Color option"

record ExtractedPaint =
  ep_type :: string
  ep_opacity :: number
  ep_color :: "ExtractedColor option"

definition extractPaint :: "Paint \<Rightarrow> ExtractedPaint" where
  "extractPaint paint =
     \<lparr>ep_type = paint_type paint,
      ep_opacity = (case paint_opacity paint of Some opacity \<Rightarrow> opacity | None \<Rightarrow> 1),
      ep_color = (if paint_type paint = ''SOLID''
                  then (case paint_color paint of Some color \<Rightarrow> Some (extractColor color)
                        | None \<Rightarrow> None)
                  else None)\<rparr>"

definition extractPaints :: "Paint list \<Rightarrow> ExtractedPaint list" where
  "extractPaints paints = map extractPaint paints"

text \<open>
  Modelled from the spec: the declaration of the type \<open>Paint\<close> is not part of the
  sources (it comes with the scene-graph provider); the data model says of it that
  "solid paints carry a Color".
\<close>

definition is_Paint :: "Paint \<Rightarrow> bool" where
  "is_Paint paint = (if paint_type paint = ''SOLID'' then paint_color paint \<noteq> None else True)"

section \<open>canvas.ts: nodes\<close>

text \<open>
  A property whose value is either of the expected runtime type (a number, a string, an
  array) or the symbol \<open>figma.mixed\<close>, for which \<open>typeof\<close> is neither \<open>'number'\<close> nor
  \<open>'string'\<close> and \<open>Array.isArray\<close> is false.
\<close>

datatype 'a or_mixed = Plain 'a | Mixed

text \<open>
  The \<open>children\<close> property, which the source reads through \<open>(node as any)\<close>: absent, an
  array of nodes, or a value that is neither iterable nor has a \<open>length\<close> (\<open>null\<close>,
  \<open>undefined\<close>), on which both \<open>for ... of\<close> and \<open>.length\<close> throw a TypeError.
\<close>

datatype 'n children_prop = NoChildren | ChildArray "'n list" | ChildNullish

text \<open>The properties \<open>extractNodeData\<close> probes with \<open>in\<close>; \<open>None\<close> is an absent property.\<close>

record NodeProps =
  n_name :: string
  n_type :: string
  n_width :: "number option"
  n_height :: "number option"
  n_layoutMode :: "string option"
  n_primaryAxisSizingMode :: "string option"
  n_counterAxisSizingMode :: "string option"
  n_primaryAxisAlignItems :: "string option"
  n_counterAxisAlignItems :: "string option"
  n_fills :: "Paint list or_mixed option"
  n_strokes :: "Paint list or_mixed option"
  n_strokeWeight :: "number or_mixed option"
  n_strokeAlign :: "string or_mixed option"
  n_strokeCap :: "string or_mixed option"
  n_strokeJoin :: "string or_mixed option"

datatype SceneNode = SceneNode (n_props: NodeProps) (n_children: "SceneNode children_prop")

record ExtractedProps =
  x_name :: string
  x_type :: string
  x_width :: "number option"
  x_height :: "number option"
  x_layoutMode :: "string option"
  x_primaryAxisSizingMode :: "string option"
  x_counterAxisSizingMode :: "string option"
  x_primaryAxisAlignItems :: "string option"
  x_counterAxisAlignItems :: "string option"
  x_fills :: "ExtractedPaint list option"
  x_strokes :: "ExtractedPaint list option"
  x_strokeWeight :: "number option"
  x_strokeAlign :: "string option"
  x_strokeCap :: "string option"
  x_strokeJoin :: "string option"

datatype ExtractedNode =
  ExtractedNode (x_props: ExtractedProps) (x_children: "ExtractedNode list option")
    (x_childrenCount: "nat option")

datatype error = TypeError

text \<open>\<open>'p' in node && typeof node.p === ...\<close>, and \<open>'p' in node && Array.isArray(node.p)\<close>.\<close>

fun plain :: "'a or_mixed option \<Rightarrow> 'a option" where
  "plain (Some (Plain v)) = Some v"
| "plain (Some Mixed) = None"
| "plain None = None"

text \<open>Lines 63 to 99 of \<open>extractNodeData\<close>: every property but the children.\<close>

definition extractProps :: "NodeProps \<Rightarrow> ExtractedProps" where
  "extractProps node =
     \<lparr>x_name = n_name node, x_type = n_type node,
      x_width = n_width node, x_height = n_height node,
      x_layoutMode = n_layoutMode node,
      x_primaryAxisSizingMode = n_primaryAxisSizingMode node,
      x_counterAxisSizingMode = n_counterAxisSizingMode node,
      x_primaryAxisAlignItems = n_primaryAxisAlignItems node,
      x_counterAxisAlignItems = n_counterAxisAlignItems node,
      x_fills = map_option extractPaints (plain (n_fills node)),
      x_strokes = map_option extractPaints (plain (n_strokes node)),
      x_strokeWeight = plain (n_strokeWeight node),
      x_strokeAlign = plain (n_strokeAlign node),
      x_strokeCap = plain (n_strokeCap node),
      x_strokeJoin = plain (n_strokeJoin node)\<rparr>"

text \<open>
  Lines 101 to 113. The loop over the children is \<open>extractChildren\<close>; an exception thrown
  for a child leaves the loop and the function.
\<close>

fun extractNodeData :: "SceneNode \<Rightarrow> bool \<Rightarrow> error + ExtractedNode"
  and extractChildren :: "SceneNode list \<Rightarrow> bool \<Rightarrow> error + ExtractedNode list" where
  "extractNodeData (SceneNode node NoChildren) expandContent =
     Inr (ExtractedNode (extractProps node) None None)"
| "extractNodeData (SceneNode node (ChildArray children)) expandContent =
     (if expandContent
      then (case extractChildren children expandContent of
              Inl e \<Rightarrow> Inl e
            | Inr ds \<Rightarrow> Inr (ExtractedNode (extractProps node) (Some ds) None))
      else Inr (ExtractedNode (extractProps node) None (Some (length children))))"
| "extractNodeData (SceneNode node ChildNullish) expandContent = Inl TypeError"
| "extractChildren [] expandContent = Inr []"
| "extractChildren (child # rest) expandContent =
     (case extractNodeData child expandContent of
        Inl e \<Rightarrow> Inl e
      | Inr d \<Rightarrow> (case extractChildren rest expandContent of
                     Inl e \<Rightarrow> Inl e
                   | Inr ds \<Rightarrow> Inr (d # ds)))"

text \<open>
  Modelled from the spec: the declaration of the type \<open>SceneNode\<close> is not part of the
  sources; the data model says of it that \<open>children\<close> is an "ordered sequence of
  SceneNode, present only for container-capable types".
\<close>

fun is_SceneNode :: "SceneNode \<Rightarrow> bool" where
  "is_SceneNode (SceneNode node NoChildren) = True"
| "is_SceneNode (SceneNode node (ChildArray children)) = list_all is_SceneNode children"
| "is_SceneNode (SceneNode node ChildNullish) = False"

text \<open>The invariant of the children fields, between a node and the record extracted from it.\<close>

fun children_invariant :: "SceneNode \<Rightarrow> ExtractedNode \<Rightarrow> bool" where
  "children_invariant (SceneNode node NoChildren) d =
     (x_children d = None \<and> x_childrenCount d = None)"
| "children_invariant (SceneNode node (ChildArray children)) d =
     ((x_children d \<noteq> None) \<noteq> (x_childrenCount d \<noteq> None)
      \<and> (case x_childrenCount d of None \<Rightarrow> True | Some k \<Rightarrow> k = length children)
      \<and> (case x_children d of None \<Rightarrow> True
         | Some ds \<Rightarrow> list_all2 children_invariant children ds))"
| "children_invariant (SceneNode node ChildNullish) d = False"

text \<open>
  A node and the record extracted from it have the same shape: the record holds the
  properties extracted from the node, and its \<open>children\<close> are in the same relation with
  the children of the node, one by one.
\<close>

fun mirrors :: "SceneNode \<Rightarrow> ExtractedNode \<Rightarrow> bool" where
  "mirrors (SceneNode node NoChildren) d =
     (x_props d = extractProps node \<and> x_children d = None)"
| "mirrors (SceneNode node (ChildArray children)) d =
     (x_props d = extractProps node
      \<and> (case x_children d of None \<Rightarrow> False | Some ds \<Rightarrow> list_all2 mirrors children ds))"
| "mirrors (SceneNode node ChildNullish) d = False"

text \<open>A node and all its descendants, and a record and all the records below it, in preorder.\<close>

fun scene_nodes :: "SceneNode \<Rightarrow> NodeProps list" where
  "scene_nodes (SceneNode node NoChildren) = [node]"
| "scene_nodes (SceneNode node (ChildArray children)) = node # concat (map scene_nodes children)"
| "scene_nodes (SceneNode node ChildNullish) = [node]"

fun extracted_nodes :: "ExtractedNode \<Rightarrow> ExtractedNode list" where
  "extracted_nodes (ExtractedNode p None k) = [ExtractedNode p None k]"
| "extracted_nodes (ExtractedNode p (Some ds) k) =
     ExtractedNode p (Some ds) k # concat (map extracted_nodes ds)"

section \<open>Messages\<close>

text \<open>
  The values that travel in messages: primitives, an extracted tree, an array of
  extracted trees. A message is an object, a list of properties with distinct names;
  reading a property that is not there gives \<open>undefined\<close>.
\<close>

datatype jsval =
  JUndefined | JNull | JBool bool | JNum number | JStr string
  | JNode ExtractedNode | JNodes "ExtractedNode list"

type_synonym message = "(string \<times> jsval) list"

definition get_prop :: "message \<Rightarrow> string \<Rightarrow> jsval" where
  "get_prop obj k = (case map_of obj k of Some v \<Rightarrow> v | None \<Rightarrow> JUndefined)"

fun truthy :: "jsval \<Rightarrow> bool" where
  "truthy JUndefined = False"
| "truthy JNull = False"
| "truthy (JBool b) = b"
| "truthy (JNum x) = (x \<noteq> 0)"
| "truthy (JStr s) = (s \<noteq> [])"
| "truthy (JNode d) = True"
| "truthy (JNodes ds) = True"

section \<open>canvas.ts: the host\<close>

text \<open>What the host does to the outside: \<open>figma.ui.postMessage\<close>, \<open>figma.notify\<close>, \<open>console.error\<close>.\<close>

datatype host_effect = PostMessage message | Notify jsval | ConsoleError

text \<open>What the \<open>catch\<close> block of \<open>sendSelectionToUI\<close> does.\<close>

definition failure_report :: "host_effect list" where
  "failure_report =
     [ConsoleError,
      PostMessage [(''type'', JStr ''error''),
                   (''message'', JStr ''Failed to process selection data'')]]"

text \<open>
  \<open>sendSelectionToUI(expandContent = false)\<close>, given the current selection of the page. The
  default applies when the argument is \<open>undefined\<close>. \<open>selection.map\<close> is the loop
  \<open>extractChildren\<close>; the flag is only ever tested for truthiness.
\<close>

definition sendSelectionToUI :: "jsval \<Rightarrow> SceneNode list \<Rightarrow> host_effect list" where
  "sendSelectionToUI arg selection =
     (let expandContent = (if arg = JUndefined then JBool False else arg)
      in if length selection = 0
         then [PostMessage [(''type'', JStr ''selectionChange''), (''data'', JNull)]]
         else (case extractChildren selection (truthy expandContent) of
                 Inr selectionData \<Rightarrow>
                   [PostMessage [(''type'', JStr ''selectionChange''),
                                 (''data'', JNodes selectionData)]]
               | Inl e \<Rightarrow> failure_report))"

text \<open>\<open>figma.ui.onmessage\<close>, lines 5 to 16.\<close>

definition onmessage :: "SceneNode list \<Rightarrow> message \<Rightarrow> host_effect list" where
  "onmessage selection msg =
     (if get_prop msg ''type'' = JStr ''toggleExpand''
        then sendSelectionToUI (get_prop msg ''expandContent'') selection
      else if get_prop msg ''type'' = JStr ''notify''
        then [Notify (get_prop msg ''message'')]
      else if get_prop msg ''type'' = JStr ''init''
        then sendSelectionToUI (JBool True) selection
      else [])"

text \<open>
  The three entry points of the host: the last line of the file, run once at startup, the
  \<open>selectionchange\<close> listener, and the message handler. The host has no variable of its
  own: what it does at an event depends on the event and on the selection at that time.
\<close>

datatype host_event = Startup | SelectionChanged | UiMessage message

fun host_step :: "SceneNode list \<Rightarrow> host_event \<Rightarrow> host_effect list" where
  "host_step selection Startup = sendSelectionToUI (JBool True) selection"
| "host_step selection SelectionChanged = sendSelectionToUI (JBool False) selection"
| "host_step selection (UiMessage msg) = onmessage selection msg"

fun host_run :: "(SceneNode list \<times> host_event) list \<Rightarrow> host_effect list" where
  "host_run [] = []"
| "host_run ((selection, ev) # rest) = host_step selection ev @ host_run rest"

text \<open>
  The expand preference the surface last sent: the \<open>expandContent\<close> of the latest
  \<open>toggleExpand\<close> among the events so far, if there is one.
\<close>

fun last_preference :: "host_event list \<Rightarrow> jsval option" where
  "last_preference [] = None"
| "last_preference (ev # rest) =
     (case last_preference rest of
        Some v \<Rightarrow> Some v
      | None \<Rightarrow> (case ev of
                   UiMessage msg \<Rightarrow>
                     (if get_prop msg ''type'' = JStr ''toggleExpand''
                      then Some (get_prop msg ''expandContent'') else None)
                 | _ \<Rightarrow> None))"

section \<open>DefaultView.tsx: the surface\<close>

text \<open>
  The state of the component: its \<open>useState\<close> variables, but for the strings and
  counts that an effect derives from \<open>selectionData\<close>. The message handler posts
  nothing itself; the component posts from effects, which run when the state changes.
\<close>

record Surface =
  selectionData :: jsval
  includeChildren :: bool
  activeTab :: string

text \<open>
  \<open>window.onmessage\<close>; the argument is \<open>event.data.pluginMessage\<close>, \<open>None\<close> when it is
  \<open>undefined\<close> or \<open>null\<close>.
\<close>

definition window_onmessage :: "Surface \<Rightarrow> message option \<Rightarrow> Surface" where
  "window_onmessage st pluginMessage =
     (case pluginMessage of
        Some message \<Rightarrow>
          (if get_prop message ''type'' = JStr ''selectionChange''
           then st\<lparr>selectionData := get_prop message ''data''\<rparr> else st)
      | None \<Rightarrow> st)"

text \<open>The value that is serialized for display: a one-element array gives its element.\<close>

fun dataToShow :: "jsval \<Rightarrow> jsval" where
  "dataToShow (JNodes [d]) = JNode d"
| "dataToShow v = v"

section \<open>DefaultView.tsx: the token estimate\<close>

text \<open>
  A JavaScript string is a sequence of UTF-16 code units, here natural numbers;
  \<open>units\<close> gives the code units of an ASCII literal.
\<close>

type_synonym jsstring = "nat list"

definition units :: "string \<Rightarrow> jsstring" where
  "units s = map of_char s"

text \<open>
  The character classes of the three regular expressions: \<open>\s\<close> (the white space and
  line terminator code points of ECMAScript), \<open>\d\<close> (\<open>0\<close> to \<open>9\<close>) and
  \<open>[{}\[\]",:]\<close>.
\<close>

definition is_space :: "nat \<Rightarrow> bool" where
  "is_space c = (c \<in> {9, 10, 11, 12, 13, 32, 160, 5760, 8232, 8233, 8239, 8287, 12288, 65279}
                 \<or> (8192 \<le> c \<and> c \<le> 8202))"

definition is_digit :: "nat \<Rightarrow> bool" where
  "is_digit c = (48 \<le> c \<and> c \<le> 57)"

definition is_special :: "nat \<Rightarrow> bool" where
  "is_special c = (c \<in> {123, 125, 91, 93, 34, 44, 58})"

text \<open>
  \<open>text.split(/\s+/)\<close>: the pieces between the maximal runs of white space, with an empty
  piece before a leading run and after a trailing one.
\<close>

function split_space :: "jsstring \<Rightarrow> jsstring list" where
  "split_space text =
     (let piece = takeWhile (\<lambda>c. \<not> is_space c) text;
          rest = dropWhile (\<lambda>c. \<not> is_space c) text
      in if rest = [] then [piece] else piece # split_space (dropWhile is_space rest))"
  by pat_completeness auto
termination
proof -
  have "length (dropWhile is_space r) < length s"
    if "r = dropWhile (\<lambda>c. \<not> is_space c) s" "r \<noteq> []" for r s :: jsstring
  proof -
    from that have "is_space (hd r)"
      using hd_dropWhile [of "\<lambda>c. \<not> is_space c" s] by simp
    with that(2) have "length (dropWhile is_space r) < length r"
      by (cases r) (auto simp: le_imp_less_Suc length_dropWhile_le)
    also have "length r \<le> length s" unfolding that(1) by (rule length_dropWhile_le)
    finally show ?thesis .
  qed
  then show ?thesis
    by (relation "measure length") auto
qed

declare split_space.simps [simp del]

text \<open>\<open>text.match(/[{}\[\]",:]/g) || []\<close>: the matches, one per special character.\<close>

definition match_special :: "jsstring \<Rightarrow> jsstring list" where
  "match_special text = map (\<lambda>c. [c]) (filter is_special text)"

text \<open>
  \<open>text.match(/\d+(\.\d+)?/g) || []\<close>: the matches from left to right. A match starts at a
  digit, takes all the digits that follow, and then a dot with the digits after it when
  the dot is followed by a digit; the search goes on after the match.
\<close>

function match_numbers :: "jsstring \<Rightarrow> jsstring list" where
  "match_numbers [] = []"
| "match_numbers (c # cs) =
     (if is_digit c
      then (let int_part = c # takeWhile is_digit cs; rest = dropWhile is_digit cs
            in case rest of
                 d # e # rest' \<Rightarrow>
                   if d = 46 \<and> is_digit e
                   then (int_part @ d # e # takeWhile is_digit rest')
                          # match_numbers (dropWhile is_digit rest')
                   else int_part # match_numbers rest
               | _ \<Rightarrow> int_part # match_numbers rest)
      else match_numbers cs)"
  by pat_completeness auto
termination
proof -
  have drop_le: "length (dropWhile P xs) \<le> length xs" for P and xs :: jsstring
    by (rule length_dropWhile_le)
  have tail: "length (dropWhile P r) < Suc (length xs)"
    if "d # e # r = dropWhile Q xs" for P Q d e and r xs :: jsstring
  proof -
    have "length (d # e # r) \<le> length xs" unfolding that by (rule length_dropWhile_le)
    moreover have "length (dropWhile P r) \<le> length r" by (rule drop_le)
    ultimately show ?thesis by simp
  qed
  show ?thesis
    by (relation "measure length") (auto simp: le_imp_less_Suc drop_le intro: tail)
qed

declare match_numbers.simps [simp del]

text \<open>The literals \<open>1.3\<close>, \<open>0.3\<close> and \<open>0.5\<close>: the binary64 values nearest to the decimals.\<close>

definition lit_1_3 :: number where "lit_1_3 = fl (13 / 10)"
definition lit_0_3 :: number where "lit_0_3 = fl (3 / 10)"
definition lit_0_5 :: number where "lit_0_5 = fl (5 / 10)"

definition weighted_sum :: "nat \<Rightarrow> nat \<Rightarrow> nat \<Rightarrow> number" where
  "weighted_sum wordCount specialChars numbers =
     js_add (js_add (js_mul (of_nat wordCount) lit_1_3) (js_mul (of_nat specialChars) lit_0_3))
            (js_mul (of_nat numbers) lit_0_5)"

definition calculateTokens :: "jsstring \<Rightarrow> int" where
  "calculateTokens text =
     (if text = [] then 0
      else let wordCount = length (filter (\<lambda>word. length word > 0) (split_space text));
               specialChars = length (match_special text);
               numbers = length (match_numbers text)
           in max 1 (Math_round (weighted_sum wordCount specialChars numbers)))"

subsection \<open>The counts in the words of the specification\<close>

text \<open>
  The whitespace-delimited non-empty runs: a run starts at a character that is not white
  space and that is the first of the text or comes after white space.
\<close>

fun word_runs :: "bool \<Rightarrow> jsstring \<Rightarrow> nat" where
  "word_runs after_space [] = 0"
| "word_runs after_space (c # cs) =
     (if \<not> is_space c \<and> after_space then 1 else 0) + word_runs (is_space c) cs"

definition wordCount_spec :: "jsstring \<Rightarrow> nat" where
  "wordCount_spec text = word_runs True text"

definition specialCharCount_spec :: "jsstring \<Rightarrow> nat" where
  "specialCharCount_spec text = length (filter is_special text)"

text \<open>
  The maximal digit runs, optionally followed by a single dot and more digits, read off by
  an automaton: outside a number, in its digits, just after the dot that follows its
  digits, in the digits after the dot. A number is counted at its first digit.
\<close>

datatype scan_state = Outside | InDigits | AfterDot | InFraction

fun number_tokens :: "scan_state \<Rightarrow> jsstring \<Rightarrow> nat" where
  "number_tokens st [] = 0"
| "number_tokens Outside (c # cs) =
     (if is_digit c then 1 + number_tokens InDigits cs else number_tokens Outside cs)"
| "number_tokens InDigits (c # cs) =
     (if is_digit c then number_tokens InDigits cs
      else if c = 46 then number_tokens AfterDot cs else number_tokens Outside cs)"
| "number_tokens AfterDot (c # cs) =
     (if is_digit c then number_tokens InFraction cs else number_tokens Outside cs)"
| "number_tokens InFraction (c # cs) =
     (if is_digit c then number_tokens InFraction cs else number_tokens Outside cs)"

definition numberTokenCount_spec :: "jsstring \<Rightarrow> nat" where
  "numberTokenCount_spec text = number_tokens Outside text"

section \<open>Example values\<close>

text \<open>
  A node with a name and a type and no other property; a frame with a text and a group of
  one vector; a solid paint and a gradient paint.
\<close>

definition bare_props :: "string \<Rightarrow> string \<Rightarrow> NodeProps" where
  "bare_props name type =
     \<lparr>n_name = name, n_type = type, n_width = None, n_height = None, n_layoutMode = None,
      n_primaryAxisSizingMode = None, n_counterAxisSizingMode = None,
      n_primaryAxisAlignItems = None, n_counterAxisAlignItems = None,
      n_fills = None, n_strokes = None, n_strokeWeight = None, n_strokeAlign = None,
      n_strokeCap = None, n_strokeJoin = None\<rparr>"

definition example_frame :: SceneNode where
  "example_frame =
     SceneNode (bare_props ''Card'' ''FRAME'')
       (ChildArray
          [SceneNode (bare_props ''Title'' ''TEXT'') NoChildren,
           SceneNode (bare_props ''Icons'' ''GROUP'')
             (ChildArray [SceneNode (bare_props ''Star'' ''VECTOR'') NoChildren])])"

definition example_paints :: "Paint list" where
  "example_paints =
     [\<lparr>paint_type = ''SOLID'', paint_opacity = Some (1 / 2),
       paint_color = Some \<lparr>chan_r = 1, chan_g = 0, chan_b = 0, chan_a = None\<rparr>\<rparr>,
      \<lparr>paint_type = ''GRADIENT_LINEAR'', paint_opacity = None, paint_color = None\<rparr>]"

text \<open>A node whose \<open>children\<close> property holds \<open>null\<close>.\<close>

definition example_broken :: SceneNode where
  "example_broken = SceneNode (bare_props ''Broken'' ''FRAME'') ChildNullish"

text \<open>The text \<open>{"a": 1, "b": 22.5}\<close>.\<close>

definition example_object :: jsstring where
  "example_object = units ''{\"a\": 1, \"b\": 22.5}''"

text \<open>The seven characters \<open>{"a":1}\<close>.\<close>

definition example_json :: jsstring where
  "example_json = units ''{\"a\":1}''"

section \<open>Properties of the extraction\<close>

lemma extract_invariant_aux:
  "(extractNodeData node e = Inr d \<longrightarrow> children_invariant node d)"
  "(extractChildren cs e = Inr ds \<longrightarrow> list_all2 children_invariant cs ds)"
  by (induction node e and cs e arbitrary: d and ds rule: extractNodeData_extractChildren.induct)
     (auto split: sum.splits if_splits)

lemma extract_total_aux:
  "is_SceneNode node \<Longrightarrow> \<exists>d. extractNodeData node e = Inr d"
  "list_all is_SceneNode cs \<Longrightarrow> \<exists>ds. extractChildren cs e = Inr ds"
  by (induction node e and cs e rule: extractNodeData_extractChildren.induct)
     (auto split: sum.splits if_splits)

lemma extract_mirrors_aux:
  "(extractNodeData node e = Inr d \<longrightarrow> e \<longrightarrow> mirrors node d)"
  "(extractChildren cs e = Inr ds \<longrightarrow> e \<longrightarrow> list_all2 mirrors cs ds)"
  by (induction node e and cs e arbitrary: d and ds rule: extractNodeData_extractChildren.induct)
     (auto split: sum.splits if_splits)

lemma extract_nodes_aux:
  "(extractNodeData node e = Inr d \<longrightarrow> e \<longrightarrow>
      map x_props (extracted_nodes d) = map extractProps (scene_nodes node))"
  "(extractChildren cs e = Inr ds \<longrightarrow> e \<longrightarrow>
      map x_props (concat (map extracted_nodes ds)) = map extractProps (concat (map scene_nodes cs)))"
  by (induction node e and cs e arbitrary: d and ds rule: extractNodeData_extractChildren.induct)
     (auto split: sum.splits if_splits)

lemma extract_collapsed:
  assumes "extractNodeData node False = Inr d"
  shows "x_children d = None \<and> extracted_nodes d = [d]"
proof (cases node)
  case (SceneNode p ch)
  with assms show ?thesis by (cases ch) auto
qed

text \<open>
  C1. For every node and every value of the expand flag, the record returned by
  \<open>extractNodeData\<close> satisfies, at every level: a node with a \<open>children\<close> array gives
  exactly one of \<open>children\<close> and \<open>childrenCount\<close>, and \<open>childrenCount\<close>, when present, is
  the number of children of the node; a node without \<open>children\<close> gives neither. A record is
  returned for every node whose \<open>children\<close>, at every level, are absent or arrays.
\<close>

theorem extract_children_invariant:
  "(is_SceneNode node \<longrightarrow> (\<exists>d. extractNodeData node expandContent = Inr d))
   \<and> (\<forall>d. extractNodeData node expandContent = Inr d \<longrightarrow> children_invariant node d)"
  using extract_total_aux(1) [of node expandContent] extract_invariant_aux(1) [of node expandContent]
  by blast

theorem extract_children_invariant_witness:
  "is_SceneNode example_frame
   \<and> (\<exists>d. extractNodeData example_frame True = Inr d \<and> children_invariant example_frame d
          \<and> x_childrenCount d = None \<and> map_option length (x_children d) = Some 2)"
  using extract_children_invariant [of example_frame True]
  by (simp add: example_frame_def)

text \<open>
  C2. With the flag true the record mirrors the node at every level: every descendant is
  there, with the properties extracted from it, whatever the depth. With the flag false
  no record of the result has a \<open>children\<close> field.
\<close>

theorem extract_expand_all_levels:
  "(is_SceneNode node \<longrightarrow> (\<exists>d. extractNodeData node expandContent = Inr d))
   \<and> (\<forall>d. extractNodeData node True = Inr d \<longrightarrow>
          mirrors node d
          \<and> map x_props (extracted_nodes d) = map extractProps (scene_nodes node))
   \<and> (\<forall>d. extractNodeData node False = Inr d \<longrightarrow>
          (\<forall>x \<in> set (extracted_nodes d). x_children x = None))"
  using extract_total_aux(1) [of node expandContent] extract_mirrors_aux(1) [of node True]
    extract_nodes_aux(1) [of node True] extract_collapsed [of node]
  by auto

theorem extract_expand_all_levels_witness:
  "is_SceneNode example_frame
   \<and> (\<exists>d. extractNodeData example_frame True = Inr d \<and> mirrors example_frame d
          \<and> map x_name (map x_props (extracted_nodes d)) = [''Card'', ''Title'', ''Icons'', ''Star''])
   \<and> (\<exists>d. extractNodeData example_frame False = Inr d \<and> x_children d = None
          \<and> x_childrenCount d = Some 2)"
  using extract_expand_all_levels [of example_frame True]
  by (simp add: example_frame_def extractProps_def bare_props_def)

section \<open>Properties of paints and colours\<close>

text \<open>
  C3. \<open>extractPaints\<close> returns one record per paint, in order, with the type of the
  paint, and with its opacity or 1 when it has none. A paint whose type is not \<open>SOLID\<close>
  gives no \<open>color\<close>; a \<open>SOLID\<close> paint gives the encoding of its colour. For a value of the
  type \<open>Paint\<close>, \<open>color\<close> is present if and only if the type is \<open>SOLID\<close>. The function is
  total: it has no failure.
\<close>

theorem extractPaints_normalize:
  "length (extractPaints paints) = length paints
   \<and> (\<forall>i < length paints.
        ep_type (extractPaints paints ! i) = paint_type (paints ! i)
        \<and> ep_opacity (extractPaints paints ! i) =
            (case paint_opacity (paints ! i) of Some opacity \<Rightarrow> opacity | None \<Rightarrow> 1)
        \<and> (paint_type (paints ! i) \<noteq> ''SOLID'' \<longrightarrow> ep_color (extractPaints paints ! i) = None)
        \<and> (paint_type (paints ! i) = ''SOLID'' \<longrightarrow>
             ep_color (extractPaints paints ! i) = map_option extractColor (paint_color (paints ! i)))
        \<and> (is_Paint (paints ! i) \<longrightarrow>
             (ep_color (extractPaints paints ! i) \<noteq> None) = (paint_type (paints ! i) = ''SOLID'')))"
  by (auto simp: extractPaints_def extractPaint_def is_Paint_def split: option.splits)

theorem extractPaints_normalize_witness:
  "list_all is_Paint example_paints
   \<and> map ep_type (extractPaints example_paints) = [''SOLID'', ''GRADIENT_LINEAR'']
   \<and> map ep_opacity (extractPaints example_paints) = [1 / 2, 1]
   \<and> map (\<lambda>p. ep_color p \<noteq> None) (extractPaints example_paints) = [True, False]"
  using extractPaints_normalize [of example_paints]
  by (simp add: example_paints_def is_Paint_def extractPaints_def extractPaint_def)

subsection \<open>Rounding a channel\<close>

lemma pow2_powi: "pow2 k = 2 powi k"
  by (simp add: pow2_def power_int_def inverse_eq_divide power_one_over)

lemma pow2_pos: "0 < pow2 k"
  by (simp add: pow2_powi)

lemma pow2_mono: "a \<le> b \<Longrightarrow> pow2 a \<le> pow2 b"
  by (simp add: pow2_powi power_int_increasing)

lemma pow2_less_imp_less: "pow2 a < pow2 b \<Longrightarrow> a < b"
  using pow2_mono [of b a] by (cases "a < b") auto

lemma pow2_diff: "pow2 (a - b) = pow2 a / pow2 b"
  by (simp add: pow2_powi power_int_diff)

lemma ilog2_lower:
  assumes "0 < x"
  shows "pow2 (ilog2 x) \<le> x"
proof -
  obtain p q where pq: "quotient_of x = (p, q)" by (cases "quotient_of x")
  then have q: "0 < q" and x: "x = of_int p / of_int q"
    using quotient_of_denom_pos quotient_of_div by blast+
  from assms q x have p: "0 < p" by (simp add: zero_less_divide_iff)
  define d where "d = bitlen p - bitlen q"
  show ?thesis
  proof (cases "pow2 d \<le> x")
    case True
    then show ?thesis by (simp add: ilog2_def pq d_def)
  next
    case False
    then have il: "ilog2 x = d - 1" by (simp add: ilog2_def pq d_def)
    have bp: "1 \<le> bitlen p" and bq: "0 \<le> bitlen q"
      using p bitlen_nonneg [of q] by (auto simp: bitlen_alt_def)
    have "(2::int) ^ nat (bitlen p - 1) \<le> p" using bitlen_bounds [OF p] by simp
    then have "(of_int ((2::int) ^ nat (bitlen p - 1)) :: rat) \<le> of_int p"
      by (simp only: of_int_le_iff)
    then have 1: "pow2 (bitlen p - 1) \<le> of_int p"
      using bp by (simp add: pow2_def)
    have "q < 2 ^ nat (bitlen q)" using bitlen_bounds [OF q] by simp
    then have "(of_int q :: rat) < of_int (2 ^ nat (bitlen q))"
      by (simp only: of_int_less_iff)
    then have 2: "of_int q < pow2 (bitlen q)"
      using bq by (simp add: pow2_def)
    have "pow2 (d - 1) = pow2 (bitlen p - 1) / pow2 (bitlen q)"
      unfolding d_def using pow2_diff [of "bitlen p - 1" "bitlen q"] by (simp add: algebra_simps)
    also have "\<dots> \<le> of_int p / of_int q"
      using 1 2 p q pow2_pos [of "bitlen q"] pow2_pos [of "bitlen p - 1"]
      by (intro frac_le) auto
    finally show ?thesis using il x by simp
  qed
qed

lemma ilog2_upper:
  assumes "0 < x"
  shows "x < pow2 (ilog2 x + 1)"
proof -
  obtain p q where pq: "quotient_of x = (p, q)" by (cases "quotient_of x")
  then have q: "0 < q" and x: "x = of_int p / of_int q"
    using quotient_of_denom_pos quotient_of_div by blast+
  from assms q x have p: "0 < p" by (simp add: zero_less_divide_iff)
  define d where "d = bitlen p - bitlen q"
  show ?thesis
  proof (cases "pow2 d \<le> x")
    case False
    then show ?thesis by (simp add: ilog2_def pq d_def)
  next
    case True
    then have il: "ilog2 x = d" by (simp add: ilog2_def pq d_def)
    have bp: "0 \<le> bitlen p" and bq: "1 \<le> bitlen q"
      using q bitlen_nonneg [of p] by (auto simp: bitlen_alt_def)
    have "p < 2 ^ nat (bitlen p)" using bitlen_bounds [OF p] by simp
    then have "(of_int p :: rat) < of_int (2 ^ nat (bitlen p))"
      by (simp only: of_int_less_iff)
    then have 1: "of_int p < pow2 (bitlen p)"
      using bp by (simp add: pow2_def)
    have "(2::int) ^ nat (bitlen q - 1) \<le> q" using bitlen_bounds [OF q] by simp
    then have "(of_int ((2::int) ^ nat (bitlen q - 1)) :: rat) \<le> of_int q"
      by (simp only: of_int_le_iff)
    then have 2: "pow2 (bitlen q - 1) \<le> of_int q"
      using bq by (simp add: pow2_def)
    have "of_int p / of_int q < pow2 (bitlen p) / pow2 (bitlen q - 1)"
      using 1 2 p q pow2_pos [of "bitlen q - 1"]
      by (intro frac_less) auto
    also have "\<dots> = pow2 (d + 1)"
      unfolding d_def using pow2_diff [of "bitlen p" "bitlen q - 1"] by (simp add: algebra_simps)
    finally show ?thesis using il x by simp
  qed
qed

lemma literal_values:
  "lit_1_3 = 5854679515581645 / 2 ^ 52" "lit_0_3 = 5404319552844595 / 2 ^ 54" "lit_0_5 = 1 / 2"
  by code_simp+














section \<open>Properties of the host and the surface\<close>

lemma extractChildren_Inl:
  "(\<exists>e. extractChildren cs b = Inl e) = (\<exists>n \<in> set cs. \<exists>e. extractNodeData n b = Inl e)"
  by (induction cs) (auto split: sum.splits)

lemma extractChildren_Inr:
  "extractChildren cs b = Inr ds \<Longrightarrow> list_all2 (\<lambda>n d. extractNodeData n b = Inr d) cs ds"
  by (induction cs arbitrary: ds) (auto split: sum.splits)

lemma extractChildren_collapsed:
  "extractChildren cs False = Inr ds \<Longrightarrow> \<forall>d \<in> set ds. x_children d = None"
  by (induction cs arbitrary: ds) (auto split: sum.splits dest: extract_collapsed)

lemma sendSelectionToUI_failure:
  assumes "node \<in> set selection"
    and "extractNodeData node (truthy (if arg = JUndefined then JBool False else arg)) = Inl e"
  shows "sendSelectionToUI arg selection = failure_report"
proof -
  from assms obtain e' where
    "extractChildren selection (truthy (if arg = JUndefined then JBool False else arg)) = Inl e'"
    using extractChildren_Inl by blast
  moreover from assms(1) have "selection \<noteq> []" by auto
  ultimately show ?thesis by (simp add: sendSelectionToUI_def failure_report_def Let_def)
qed

lemma sendSelectionToUI_payload:
  assumes "PostMessage m \<in> set (sendSelectionToUI arg selection)"
    and "get_prop m ''type'' = JStr ''selectionChange''"
  shows "if selection = [] then get_prop m ''data'' = JNull
         else \<exists>flag ds. get_prop m ''data'' = JNodes ds \<and> length ds = length selection
                \<and> (\<forall>i < length selection. extractNodeData (selection ! i) flag = Inr (ds ! i))"
proof (cases "selection = []")
  case True
  with assms show ?thesis by (auto simp: sendSelectionToUI_def failure_report_def get_prop_def)
next
  case False
  define flag where "flag = truthy (if arg = JUndefined then JBool False else arg)"
  show ?thesis
  proof (cases "extractChildren selection flag")
    case (Inl e)
    with assms False show ?thesis
      by (auto simp: sendSelectionToUI_def failure_report_def get_prop_def Let_def flag_def)
  next
    case (Inr ds)
    with assms False have "get_prop m ''data'' = JNodes ds"
      by (auto simp: sendSelectionToUI_def failure_report_def get_prop_def Let_def flag_def)
    moreover from Inr have "list_all2 (\<lambda>n d. extractNodeData n flag = Inr d) selection ds"
      by (rule extractChildren_Inr)
    ultimately have "get_prop m ''data'' = JNodes ds \<and> length ds = length selection
        \<and> (\<forall>i < length selection. extractNodeData (selection ! i) flag = Inr (ds ! i))"
      by (simp add: list_all2_conv_all_nth)
    then show ?thesis using False by (simp only: if_False) blast
  qed
qed

lemma extract_collapsed_value:
  "is_SceneNode node \<Longrightarrow>
   extractNodeData node False =
     Inr (ExtractedNode (extractProps (n_props node)) None
            (case n_children node of ChildArray children \<Rightarrow> Some (length children) | _ \<Rightarrow> None))"
proof (cases node)
  case (SceneNode p ch)
  assume "is_SceneNode node"
  with SceneNode show ?thesis by (cases ch) auto
qed

lemma extractChildren_collapsed_value:
  "list_all is_SceneNode cs \<Longrightarrow>
   extractChildren cs False =
     Inr (map (\<lambda>node. ExtractedNode (extractProps (n_props node)) None
            (case n_children node of ChildArray children \<Rightarrow> Some (length children) | _ \<Rightarrow> None)) cs)"
  by (induction cs) (simp_all add: extract_collapsed_value)

text \<open>
  C5, as the code has it. At a \<open>selectionchange\<close> event the host runs the selection sync
  with the flag false, whatever the events before it, and so whatever expand preference
  the surface sent last: the host keeps no record of it. For a non-empty selection of
  nodes the message pushed is a \<open>selectionChange\<close> with one record per selected node, in
  order: the record has the properties extracted from the node and no \<open>children\<close>, and
  it has \<open>childrenCount\<close>, the number of children, exactly when the node has a
  \<open>children\<close> array (a leaf has neither field). The flag is true for the extraction at
  startup.
\<close>

theorem host_selectionchange_flag:
  "host_step selection SelectionChanged = sendSelectionToUI (JBool False) selection
   \<and> host_run (history @ [(selection, SelectionChanged)])
       = host_run history @ sendSelectionToUI (JBool False) selection
   \<and> host_step selection Startup = sendSelectionToUI (JBool True) selection
   \<and> (selection \<noteq> [] \<and> list_all is_SceneNode selection \<longrightarrow>
        (\<exists>ds. host_step selection SelectionChanged
                = [PostMessage [(''type'', JStr ''selectionChange''), (''data'', JNodes ds)]]
              \<and> extractChildren selection False = Inr ds
              \<and> length ds = length selection
              \<and> (\<forall>i < length selection.
                    x_props (ds ! i) = extractProps (n_props (selection ! i))
                    \<and> x_children (ds ! i) = None
                    \<and> x_childrenCount (ds ! i) =
                        (case n_children (selection ! i) of
                           ChildArray children \<Rightarrow> Some (length children)
                         | NoChildren \<Rightarrow> None
                         | ChildNullish \<Rightarrow> None))))"
proof -
  have run: "host_run (history @ [(selection, SelectionChanged)])
       = host_run history @ sendSelectionToUI (JBool False) selection"
    by (induction history) auto
  have push: "\<exists>ds. host_step selection SelectionChanged
                = [PostMessage [(''type'', JStr ''selectionChange''), (''data'', JNodes ds)]]
              \<and> extractChildren selection False = Inr ds
              \<and> length ds = length selection
              \<and> (\<forall>i < length selection.
                    x_props (ds ! i) = extractProps (n_props (selection ! i))
                    \<and> x_children (ds ! i) = None
                    \<and> x_childrenCount (ds ! i) =
                        (case n_children (selection ! i) of
                           ChildArray children \<Rightarrow> Some (length children)
                         | NoChildren \<Rightarrow> None
                         | ChildNullish \<Rightarrow> None))"
    if "selection \<noteq> []" "list_all is_SceneNode selection"
  proof -
    define ds where "ds = map (\<lambda>node. ExtractedNode (extractProps (n_props node)) None
            (case n_children node of ChildArray children \<Rightarrow> Some (length children) | _ \<Rightarrow> None))
            selection"
    have ds: "extractChildren selection False = Inr ds"
      unfolding ds_def using that(2) by (rule extractChildren_collapsed_value)
    have "host_step selection SelectionChanged
                = [PostMessage [(''type'', JStr ''selectionChange''), (''data'', JNodes ds)]]"
      using ds that(1) by (simp add: sendSelectionToUI_def)
    moreover have "length ds = length selection" by (simp add: ds_def)
    moreover have "\<forall>i < length selection.
                    x_props (ds ! i) = extractProps (n_props (selection ! i))
                    \<and> x_children (ds ! i) = None
                    \<and> x_childrenCount (ds ! i) =
                        (case n_children (selection ! i) of
                           ChildArray children \<Rightarrow> Some (length children)
                         | NoChildren \<Rightarrow> None
                         | ChildNullish \<Rightarrow> None)"
      by (auto simp: ds_def split: children_prop.splits)
    ultimately show ?thesis using ds by blast
  qed
  from run push show ?thesis by simp
qed

theorem host_selectionchange_flag_witness:
  "[example_frame, SceneNode (bare_props ''Title'' ''TEXT'') NoChildren] \<noteq> []
   \<and> list_all is_SceneNode [example_frame, SceneNode (bare_props ''Title'' ''TEXT'') NoChildren]
   \<and> (\<exists>ds. host_step [example_frame, SceneNode (bare_props ''Title'' ''TEXT'') NoChildren]
               SelectionChanged
             = [PostMessage [(''type'', JStr ''selectionChange''), (''data'', JNodes ds)]]
           \<and> map x_childrenCount ds = [Some 2, None] \<and> map x_children ds = [None, None])"
  using host_selectionchange_flag
    [of "[example_frame, SceneNode (bare_props ''Title'' ''TEXT'') NoChildren]" "[]"]
  by (simp add: example_frame_def sendSelectionToUI_def failure_report_def)

text \<open>
  C5, as stated, fails: after a \<open>toggleExpand\<close> with \<open>expandContent\<close> true, the last
  known preference is true, and a \<open>selectionchange\<close> on a frame with children does not
  push what the sync with that preference pushes.
\<close>

theorem host_selectionchange_preference_counterexample:
  "last_preference [UiMessage [(''type'', JStr ''toggleExpand''), (''expandContent'', JBool True)]]
     = Some (JBool True)
   \<and> host_step [example_frame] SelectionChanged
       \<noteq> sendSelectionToUI (JBool True) [example_frame]"
  by (simp add: get_prop_def sendSelectionToUI_def failure_report_def example_frame_def)

text \<open>
  C6, as the code has it. A message object whose \<open>type\<close> is none of the types the
  receiver handles is ignored: the host does nothing, the state of the surface is
  unchanged, and so is it when there is no plugin message. A message of a handled type is
  processed whatever its payload: a \<open>toggleExpand\<close> without \<open>expandContent\<close> is
  answered like one with \<open>expandContent\<close> false, and a \<open>selectionChange\<close> replaces the data
  of the surface by whatever its \<open>data\<close> holds.
\<close>

theorem unrecognized_message_ignored:
  "(get_prop msg ''type'' \<notin> {JStr ''toggleExpand'', JStr ''notify'', JStr ''init''} \<longrightarrow>
      onmessage selection msg = [])
   \<and> (get_prop message ''type'' \<noteq> JStr ''selectionChange'' \<longrightarrow>
        window_onmessage st (Some message) = st)
   \<and> window_onmessage st None = st
   \<and> (get_prop msg ''type'' = JStr ''toggleExpand'' \<and> get_prop msg ''expandContent'' = JUndefined \<longrightarrow>
        onmessage selection msg = sendSelectionToUI (JBool False) selection)
   \<and> (get_prop message ''type'' = JStr ''selectionChange'' \<longrightarrow>
        window_onmessage st (Some message) = st\<lparr>selectionData := get_prop message ''data''\<rparr>)"
  by (simp add: onmessage_def window_onmessage_def sendSelectionToUI_def failure_report_def)

theorem unrecognized_message_ignored_witness:
  "get_prop [(''type'', JStr ''resize''), (''width'', JNum 400)] ''type''
     \<notin> {JStr ''toggleExpand'', JStr ''notify'', JStr ''init''}
   \<and> onmessage [example_frame] [(''type'', JStr ''resize''), (''width'', JNum 400)] = []
   \<and> get_prop [(''type'', JStr ''error''), (''message'', JStr ''x'')] ''type'' \<noteq> JStr ''selectionChange''
   \<and> window_onmessage \<lparr>selectionData = JNull, includeChildren = True, activeTab = ''pretty''\<rparr>
        (Some [(''type'', JStr ''error''), (''message'', JStr ''x'')])
      = \<lparr>selectionData = JNull, includeChildren = True, activeTab = ''pretty''\<rparr>
   \<and> get_prop [(''type'', JStr ''toggleExpand'')] ''expandContent'' = JUndefined
   \<and> onmessage [] [(''type'', JStr ''toggleExpand'')]
      = [PostMessage [(''type'', JStr ''selectionChange''), (''data'', JNull)]]
   \<and> selectionData (window_onmessage \<lparr>selectionData = JNull, includeChildren = True, activeTab = ''pretty''\<rparr>
        (Some [(''type'', JStr ''selectionChange''), (''data'', JStr ''x'')])) = JStr ''x''"
  using unrecognized_message_ignored [of "[(''type'', JStr ''resize''), (''width'', JNum 400)]"
      "[example_frame]" "[(''type'', JStr ''error''), (''message'', JStr ''x'')]"
      "\<lparr>selectionData = JNull, includeChildren = True, activeTab = ''pretty''\<rparr>"]
    unrecognized_message_ignored [of "[(''type'', JStr ''toggleExpand'')]" "[]"
      "[(''type'', JStr ''selectionChange''), (''data'', JStr ''x'')]"
      "\<lparr>selectionData = JNull, includeChildren = True, activeTab = ''pretty''\<rparr>"]
  by (simp add: get_prop_def sendSelectionToUI_def failure_report_def)

text \<open>
  C6, as stated, fails for a malformed payload of a recognized type: the host answers a
  \<open>toggleExpand\<close> that has no \<open>expandContent\<close>, and a \<open>selectionChange\<close> that has no
  \<open>data\<close> changes the state of the surface.
\<close>

theorem malformed_payload_counterexample:
  "get_prop [(''type'', JStr ''toggleExpand'')] ''expandContent'' = JUndefined
   \<and> onmessage [example_frame] [(''type'', JStr ''toggleExpand'')] \<noteq> []
   \<and> get_prop [(''type'', JStr ''selectionChange'')] ''data'' = JUndefined
   \<and> window_onmessage
        \<lparr>selectionData = JNodes [ExtractedNode (extractProps (bare_props ''Title'' ''TEXT'')) None None],
         includeChildren = True, activeTab = ''pretty''\<rparr>
        (Some [(''type'', JStr ''selectionChange'')])
      \<noteq> \<lparr>selectionData = JNodes [ExtractedNode (extractProps (bare_props ''Title'' ''TEXT'')) None None],
          includeChildren = True, activeTab = ''pretty''\<rparr>"
  by (simp add: get_prop_def onmessage_def sendSelectionToUI_def failure_report_def
      window_onmessage_def example_frame_def)

text \<open>
  C7. If the extraction of a selected node throws, the selection sync logs the error and
  posts the one message \<open>error\<close> with the description
  \<open>Failed to process selection data\<close>: no \<open>selectionChange\<close> is posted, hence no partial
  tree. The host goes on: the next \<open>selectionchange\<close> is processed as usual.
\<close>

theorem extraction_failure_reported:
  assumes "node \<in> set selection"
    and "extractNodeData node (truthy (if arg = JUndefined then JBool False else arg)) = Inl e"
  shows "sendSelectionToUI arg selection = failure_report
         \<and> (\<forall>m. PostMessage m \<in> set (sendSelectionToUI arg selection) \<longrightarrow>
                get_prop m ''type'' = JStr ''error'')
         \<and> (arg = JBool False \<longrightarrow>
              host_run ((selection, SelectionChanged) # (selection', SelectionChanged) # rest)
              = failure_report @ sendSelectionToUI (JBool False) selection' @ host_run rest)"
  using sendSelectionToUI_failure [OF assms]
  by (auto simp: failure_report_def get_prop_def)

theorem extraction_failure_reported_witness:
  "example_broken \<in> set [example_frame, example_broken]
   \<and> extractNodeData example_broken (truthy (if JBool False = JUndefined then JBool False else JBool False))
       = Inl TypeError
   \<and> host_run [([example_frame, example_broken], SelectionChanged), ([], SelectionChanged)]
       = [ConsoleError,
          PostMessage [(''type'', JStr ''error''),
                       (''message'', JStr ''Failed to process selection data'')],
          PostMessage [(''type'', JStr ''selectionChange''), (''data'', JNull)]]"
  using extraction_failure_reported [of example_broken "[example_frame, example_broken]"
      "JBool False" TypeError "[]" "[]"]
  by (simp add: example_broken_def sendSelectionToUI_def failure_report_def)

text \<open>
  C10. The \<open>data\<close> of every \<open>selectionChange\<close> the host posts, at any of its events, is
  \<open>null\<close> when the selection is empty, and otherwise an array with one extracted
  record per selected node, in the order of the selection: never a single record. The
  surface is what turns an array of one record into that record, and leaves every other
  value as it is.
\<close>

theorem selectionChange_payload:
  "(\<forall>m. PostMessage m \<in> set (host_step selection ev) \<and> get_prop m ''type'' = JStr ''selectionChange''
        \<longrightarrow> (if selection = [] then get_prop m ''data'' = JNull
             else \<exists>flag ds. get_prop m ''data'' = JNodes ds \<and> length ds = length selection
                    \<and> (\<forall>i < length selection.
                          extractNodeData (selection ! i) flag = Inr (ds ! i))))
   \<and> dataToShow (JNodes [d]) = JNode d
   \<and> (length ds \<noteq> 1 \<longrightarrow> dataToShow (JNodes ds) = JNodes ds)
   \<and> dataToShow JNull = JNull"
proof -
  have "if selection = [] then get_prop m ''data'' = JNull
        else \<exists>flag ds. get_prop m ''data'' = JNodes ds \<and> length ds = length selection
               \<and> (\<forall>i < length selection. extractNodeData (selection ! i) flag = Inr (ds ! i))"
    if "PostMessage m \<in> set (host_step selection ev)"
      "get_prop m ''type'' = JStr ''selectionChange''" for m
  proof (cases ev)
    case Startup
    with that show ?thesis using sendSelectionToUI_payload [of m "JBool True" selection] by simp
  next
    case SelectionChanged
    with that show ?thesis using sendSelectionToUI_payload [of m "JBool False" selection] by simp
  next
    case (UiMessage msg)
    with that show ?thesis
      using sendSelectionToUI_payload [of m "JBool True" selection]
        sendSelectionToUI_payload [of m "get_prop msg ''expandContent''" selection]
      by (simp add: onmessage_def split: if_splits)
  qed
  moreover have "length ds \<noteq> 1 \<longrightarrow> dataToShow (JNodes ds) = JNodes ds"
  proof (cases ds)
    case Nil
    then show ?thesis by simp
  next
    case (Cons x xs)
    then show ?thesis by (cases xs) auto
  qed
  ultimately show ?thesis by simp
qed

theorem selectionChange_payload_witness:
  "PostMessage [(''type'', JStr ''selectionChange''),
                (''data'', JNodes [ExtractedNode (extractProps (bare_props ''Title'' ''TEXT'')) None None])]
     \<in> set (host_step [SceneNode (bare_props ''Title'' ''TEXT'') NoChildren] Startup)
   \<and> get_prop [(''type'', JStr ''selectionChange''),
                (''data'', JNodes [ExtractedNode (extractProps (bare_props ''Title'' ''TEXT'')) None None])]
        ''type'' = JStr ''selectionChange''
   \<and> extractNodeData ([SceneNode (bare_props ''Title'' ''TEXT'') NoChildren] ! 0) True
        = Inr (ExtractedNode (extractProps (bare_props ''Title'' ''TEXT'')) None None)
   \<and> dataToShow (JNodes [ExtractedNode (extractProps (bare_props ''Title'' ''TEXT'')) None None])
        = JNode (ExtractedNode (extractProps (bare_props ''Title'' ''TEXT'')) None None)"
  using selectionChange_payload [of "[SceneNode (bare_props ''Title'' ''TEXT'') NoChildren]" Startup
      "ExtractedNode (extractProps (bare_props ''Title'' ''TEXT'')) None None" "[]"]
  by (simp add: sendSelectionToUI_def failure_report_def get_prop_def)

section \<open>Properties of the token estimate\<close>

lemma word_runs_nonspace:
  "\<forall>c \<in> set xs. \<not> is_space c \<Longrightarrow>
   word_runs b (xs @ ys) = (if xs = [] then word_runs b ys else (if b then 1 else 0) + word_runs False ys)"
  by (induction xs arbitrary: b) auto

lemma word_runs_space:
  "\<forall>c \<in> set xs. is_space c \<Longrightarrow> xs \<noteq> [] \<Longrightarrow> word_runs b (xs @ ys) = word_runs True ys"
proof (induction xs arbitrary: b)
  case Nil
  then show ?case by simp
next
  case (Cons x xs)
  then show ?case by (cases "xs = []") auto
qed

lemma wordCount_refines:
  "length (filter (\<lambda>word. length word > 0) (split_space s)) = word_runs True s"
proof (induction s rule: split_space.induct)
  case (1 s)
  define piece where "piece = takeWhile (\<lambda>c. \<not> is_space c) s"
  define rest where "rest = dropWhile (\<lambda>c. \<not> is_space c) s"
  have s: "s = piece @ rest" by (simp add: piece_def rest_def)
  have piece: "\<forall>c \<in> set piece. \<not> is_space c"
    unfolding piece_def by (auto dest: set_takeWhileD)
  show ?case
  proof (cases "rest = []")
    case True
    then have "split_space s = [piece]"
      by (simp add: split_space.simps [of s] piece_def rest_def)
    moreover have "word_runs True s = (if piece = [] then 0 else 1)"
      using word_runs_nonspace [OF piece, of True "[]"] True s by simp
    ultimately show ?thesis by simp
  next
    case False
    define spaces where "spaces = takeWhile is_space rest"
    define rest' where "rest' = dropWhile is_space rest"
    have r: "rest = spaces @ rest'" by (simp add: spaces_def rest'_def)
    from False have "is_space (hd rest)"
      unfolding rest_def using hd_dropWhile [of "\<lambda>c. \<not> is_space c" s] by simp
    with False have sp: "spaces \<noteq> []" unfolding spaces_def by (cases rest) auto
    have sp_all: "\<forall>c \<in> set spaces. is_space c"
      unfolding spaces_def by (auto dest: set_takeWhileD)
    have split: "split_space s = piece # split_space rest'"
      using False by (subst split_space.simps) (auto simp: piece_def rest_def rest'_def Let_def)
    have IH: "length (filter (\<lambda>word. length word > 0) (split_space rest')) = word_runs True rest'"
      using "1.IH" [OF piece_def rest_def] False by (simp add: rest'_def rest_def)
    have "word_runs b rest = word_runs True rest'" for b
      using word_runs_space [OF sp_all sp, of b rest'] r by simp
    then have "word_runs True s = (if piece = [] then 0 else 1) + word_runs True rest'"
      using word_runs_nonspace [OF piece, of True rest] s by simp
    with split IH show ?thesis by simp
  qed
qed

lemma number_tokens_digits:
  "\<forall>c \<in> set ds. is_digit c \<Longrightarrow> number_tokens InDigits (ds @ ys) = number_tokens InDigits ys"
  "\<forall>c \<in> set ds. is_digit c \<Longrightarrow> number_tokens InFraction (ds @ ys) = number_tokens InFraction ys"
  by (induction ds) auto

lemma number_tokens_takeWhile:
  "number_tokens InDigits cs = number_tokens InDigits (dropWhile is_digit cs)"
  "number_tokens InFraction cs = number_tokens InFraction (dropWhile is_digit cs)"
  using number_tokens_digits [of "takeWhile is_digit cs" "dropWhile is_digit cs"]
  by (auto dest: set_takeWhileD)

lemma number_tokens_fraction_end:
  "zs = [] \<or> \<not> is_digit (hd zs) \<Longrightarrow> number_tokens InFraction zs = number_tokens Outside zs"
  by (cases zs) auto

lemma dropWhile_digit_end: "dropWhile is_digit cs = [] \<or> \<not> is_digit (hd (dropWhile is_digit cs))"
  using hd_dropWhile [of is_digit cs] by blast

lemma numbers_refines: "length (match_numbers s) = number_tokens Outside s"
proof (induction s rule: match_numbers.induct)
  case 1
  show ?case by (simp add: match_numbers.simps)
next
  case (2 c cs)
  show ?case
  proof (cases "is_digit c")
    case False
    with "2.IH"(5) show ?thesis by (simp add: match_numbers.simps)
  next
    case True
    define rest where "rest = dropWhile is_digit cs"
    have start: "number_tokens Outside (c # cs) = 1 + number_tokens InDigits rest"
      using True number_tokens_takeWhile(1) [of cs] by (simp add: rest_def)
    have nd: "rest = [] \<or> \<not> is_digit (hd rest)"
      unfolding rest_def by (rule dropWhile_digit_end)
    show ?thesis
    proof (cases rest)
      case Nil
      then have "match_numbers (c # cs) = [c # takeWhile is_digit cs]"
        using True
        by (subst match_numbers.simps(2)) (simp add: rest_def [symmetric] match_numbers.simps(1))
      with Nil start show ?thesis by simp
    next
      case (Cons d rest1)
      with nd have d: "\<not> is_digit d" by simp
      show ?thesis
      proof (cases rest1)
        case Nil
        have IH: "length (match_numbers rest) = number_tokens Outside rest"
          using "2.IH"(2) [OF True refl rest_def \<open>rest = d # rest1\<close> Nil] .
        have "match_numbers (c # cs) = (c # takeWhile is_digit cs) # match_numbers rest"
          using True \<open>rest = d # rest1\<close> Nil
          by (subst match_numbers.simps(2)) (simp add: rest_def [symmetric])
        moreover have "number_tokens InDigits rest = number_tokens Outside rest"
          using \<open>rest = d # rest1\<close> Nil d by simp
        ultimately show ?thesis using start IH by simp
      next
        case (Cons e rest')
        note rest_eq = \<open>rest = d # rest1\<close> Cons
        show ?thesis
        proof (cases "d = 46 \<and> is_digit e")
          case dot: True
          have IH: "length (match_numbers (dropWhile is_digit rest'))
                    = number_tokens Outside (dropWhile is_digit rest')"
            using "2.IH"(3) [OF True refl rest_def rest_eq dot] .
          have "match_numbers (c # cs) =
                  ((c # takeWhile is_digit cs) @ d # e # takeWhile is_digit rest')
                    # match_numbers (dropWhile is_digit rest')"
            using True rest_eq dot
            by (subst match_numbers.simps(2)) (simp add: rest_def [symmetric])
          moreover have "number_tokens InDigits rest = number_tokens InFraction rest'"
            using rest_eq dot d by simp
          moreover have "number_tokens InFraction rest'
                         = number_tokens InFraction (dropWhile is_digit rest')"
            by (rule number_tokens_takeWhile(2))
          moreover have "number_tokens InFraction (dropWhile is_digit rest')
                         = number_tokens Outside (dropWhile is_digit rest')"
            by (rule number_tokens_fraction_end) (rule dropWhile_digit_end)
          ultimately show ?thesis using start IH by simp
        next
          case nodot: False
          have IH: "length (match_numbers rest) = number_tokens Outside rest"
            using "2.IH"(4) [OF True refl rest_def rest_eq nodot] .
          have "match_numbers (c # cs) = (c # takeWhile is_digit cs) # match_numbers rest"
            using True rest_eq nodot
            by (subst match_numbers.simps(2)) (auto simp: rest_def [symmetric])
          moreover have "number_tokens InDigits rest = number_tokens Outside rest"
            using rest_eq nodot d by auto
          ultimately show ?thesis using start IH by simp
        qed
      qed
    qed
  qed
qed

lemma special_refines: "length (match_special s) = specialCharCount_spec s"
  by (simp add: match_special_def specialCharCount_spec_def)

text \<open>
  The arithmetic is that of binary64 numbers. For one word, 109 special characters and
  one number the sum is just below 34.5 and the estimate is 34, where decimal arithmetic
  gives 34.5 and 35.
\<close>

lemma weighted_sum_binary64_example:
  "Math_round (weighted_sum 1 109 1) = 34 \<and> \<lfloor>((13 * 1 + 3 * 109 + 5 * 1) / 10 :: rat) + 1 / 2\<rfloor> = 35"
  by code_simp

lemma round_even_error: "\<bar>of_int (round_even y) - y\<bar> \<le> 1 / 2"
proof -
  have "of_int \<lfloor>y\<rfloor> \<le> y" "y < of_int \<lfloor>y\<rfloor> + 1" by linarith+
  then show ?thesis by (auto simp: round_even_def Let_def)
qed

lemma fl_error:
  assumes "x = 0 \<or> 1 / 16 \<le> x"
  shows "\<bar>fl x - x\<bar> \<le> x / 2 ^ 53"
proof (cases "x = 0")
  case True
  then show ?thesis by (simp add: fl_def)
next
  case False
  with assms have x: "1 / 16 \<le> x" and pos: "0 < x" by auto
  have "pow2 (- 4) \<le> x" using x by (simp add: pow2_def)
  also have "x < pow2 (ilog2 x + 1)" using pos by (rule ilog2_upper)
  finally have "- 4 < ilog2 x + 1" by (rule pow2_less_imp_less)
  then have m: "max (ilog2 \<bar>x\<bar>) (- 1022) = ilog2 x" using pos by simp
  define e where "e = ilog2 x - 52"
  define y where "y = x / pow2 e"
  have pe: "0 < pow2 e" by (rule pow2_pos)
  have fl: "fl x = of_int (round_even y) * pow2 e"
    using False pos m by (simp add: fl_def Let_def e_def y_def)
  have xy: "y * pow2 e = x" using pe by (simp add: y_def)
  have "fl x - x = of_int (round_even y) * pow2 e - y * pow2 e"
    unfolding xy by (simp only: fl)
  then have "fl x - x = (of_int (round_even y) - y) * pow2 e"
    by (simp only: left_diff_distrib)
  then have "\<bar>fl x - x\<bar> = \<bar>of_int (round_even y) - y\<bar> * pow2 e"
    using pe by (simp add: abs_mult)
  also have "\<dots> \<le> 1 / 2 * pow2 e"
    using round_even_error [of y] pe by (intro mult_right_mono) auto
  also have "pow2 e = pow2 (ilog2 x) / 2 ^ 52"
    unfolding e_def by (simp add: pow2_diff) (simp add: pow2_def)
  also have "1 / 2 * (pow2 (ilog2 x) / 2 ^ 52) \<le> 1 / 2 * (x / 2 ^ 52)"
    using ilog2_lower [OF pos] by (intro mult_left_mono divide_right_mono) auto
  finally show ?thesis by simp
qed


lemma fl_grade:
  assumes "x = 0 \<or> m \<le> x" and "1 / 16 \<le> m"
  shows "\<bar>fl x - x\<bar> \<le> x / 2 ^ 53" and "fl x = 0 \<or> m / 2 \<le> fl x"
proof -
  from assms have "x = 0 \<or> 1 / 16 \<le> x" by auto
  then show err: "\<bar>fl x - x\<bar> \<le> x / 2 ^ 53" by (rule fl_error)
  show "fl x = 0 \<or> m / 2 \<le> fl x"
  proof (cases "x = 0")
    case True
    then show ?thesis by (simp add: fl_def)
  next
    case False
    with assms have "m \<le> x" by simp
    moreover have "x / 2 ^ 53 \<le> x / 2" using \<open>m \<le> x\<close> assms(2) by simp
    ultimately show ?thesis using err by linarith
  qed
qed

lemma weighted_sum_error:
  assumes "w \<le> 2 ^ 32" "s \<le> 2 ^ 32" "n \<le> 2 ^ 32"
  shows "\<bar>weighted_sum w s n - (13 * of_nat w + 3 * of_nat s + 5 * of_nat n) / 10\<bar> \<le> 1 / 20"
proof -
  define W S N :: rat where "W = of_nat w" and "S = of_nat s" and "N = of_nat n"
  have "(of_nat w :: rat) \<le> of_nat (2 ^ 32)" "(of_nat s :: rat) \<le> of_nat (2 ^ 32)"
    "(of_nat n :: rat) \<le> of_nat (2 ^ 32)"
    using assms by (simp_all only: of_nat_le_iff)
  then have up: "W \<le> 2 ^ 32" "S \<le> 2 ^ 32" "N \<le> 2 ^ 32" by (simp_all add: W_def S_def N_def)
  have lo: "W = 0 \<or> 1 \<le> W" "S = 0 \<or> 1 \<le> S" "N = 0 \<or> 1 \<le> N"
  proof -
    show "W = 0 \<or> 1 \<le> W" unfolding W_def by (cases w) simp_all
    show "S = 0 \<or> 1 \<le> S" unfolding S_def by (cases s) simp_all
    show "N = 0 \<or> 1 \<le> N" unfolding N_def by (cases n) simp_all
  qed
  define A B C where "A = W * (5854679515581645 / 2 ^ 52)"
    and "B = S * (5404319552844595 / 2 ^ 54)" and "C = N * (1 / 2)"
  define a b c where "a = fl A" and "b = fl B" and "c = fl C"
  define ab where "ab = fl (a + b)"
  define t where "t = fl (ab + c)"
  have t: "weighted_sum w s n = t"
    by (simp add: weighted_sum_def js_add_def js_mul_def literal_values t_def ab_def a_def b_def
        c_def A_def B_def C_def W_def S_def N_def)
  have A0: "A = 0 \<or> 1 / 4 \<le> A" and B0: "B = 0 \<or> 1 / 4 \<le> B" and C0: "C = 0 \<or> 1 / 4 \<le> C"
    using lo by (auto simp: A_def B_def C_def)
  have a: "\<bar>a - A\<bar> \<le> A / 2 ^ 53" "a = 0 \<or> 1 / 4 / 2 \<le> a"
    unfolding a_def by (rule fl_grade [OF A0], simp)+
  have b: "\<bar>b - B\<bar> \<le> B / 2 ^ 53" "b = 0 \<or> 1 / 4 / 2 \<le> b"
    unfolding b_def by (rule fl_grade [OF B0], simp)+
  have c: "\<bar>c - C\<bar> \<le> C / 2 ^ 53" "c = 0 \<or> 1 / 4 / 2 \<le> c"
    unfolding c_def by (rule fl_grade [OF C0], simp)+
  have ab0: "a + b = 0 \<or> 1 / 8 \<le> a + b" using a(2) b(2) by auto
  have ab: "\<bar>ab - (a + b)\<bar> \<le> (a + b) / 2 ^ 53" "ab = 0 \<or> 1 / 8 / 2 \<le> ab"
    unfolding ab_def by (rule fl_grade [OF ab0], simp)+
  have t0: "ab + c = 0 \<or> 1 / 16 \<le> ab + c" using ab(2) c(2) by auto
  have te: "\<bar>t - (ab + c)\<bar> \<le> (ab + c) / 2 ^ 53"
    unfolding t_def by (rule fl_grade(1) [OF t0]) simp
  have nonneg: "0 \<le> W" "0 \<le> S" "0 \<le> N" by (simp_all add: W_def S_def N_def)
  have A: "0 \<le> A" "A \<le> 2 ^ 33" "13 * W / 10 - 1 / 1048576 \<le> A" "A \<le> 13 * W / 10 + 1 / 1048576"
    using up(1) nonneg(1) unfolding A_def by simp_all
  have B: "0 \<le> B" "B \<le> 2 ^ 33" "3 * S / 10 - 1 / 1048576 \<le> B" "B \<le> 3 * S / 10 + 1 / 1048576"
    using up(2) nonneg(2) unfolding B_def by simp_all
  have C: "0 \<le> C" "C \<le> 2 ^ 33" "C = 5 * N / 10"
    using up(3) nonneg(3) unfolding C_def by simp_all
  have small: "A / 2 ^ 53 \<le> 1 / 1048576" "B / 2 ^ 53 \<le> 1 / 1048576" "C / 2 ^ 53 \<le> 1 / 1048576"
    using A(2) B(2) C(2) by simp_all
  have ea: "A - 1 / 1048576 \<le> a \<and> a \<le> A + 1 / 1048576"
    using a(1) small(1) unfolding abs_diff_le_iff by linarith
  have eb: "B - 1 / 1048576 \<le> b \<and> b \<le> B + 1 / 1048576"
    using b(1) small(2) unfolding abs_diff_le_iff by linarith
  have ec: "C - 1 / 1048576 \<le> c \<and> c \<le> C + 1 / 1048576"
    using c(1) small(3) unfolding abs_diff_le_iff by linarith
  have "a + b \<le> 2 ^ 35" using ea eb A(2) B(2) by simp
  then have "(a + b) / 2 ^ 53 \<le> 1 / 262144" by simp
  then have eab: "a + b - 1 / 262144 \<le> ab \<and> ab \<le> a + b + 1 / 262144"
    using ab(1) unfolding abs_diff_le_iff by linarith
  have "ab + c \<le> 2 ^ 37" using ea eb ec eab A(2) B(2) C(2) by simp
  then have "(ab + c) / 2 ^ 53 \<le> 1 / 65536" by simp
  then have et: "ab + c - 1 / 65536 \<le> t \<and> t \<le> ab + c + 1 / 65536"
    using te unfolding abs_diff_le_iff by linarith
  have "\<bar>t - (13 * W + 3 * S + 5 * N) / 10\<bar> \<le> 1 / 20"
    unfolding abs_diff_le_iff using ea eb ec eab et A(3,4) B(3,4) C(3)
    by (simp add: add_divide_distrib)
  then show ?thesis by (simp add: t W_def S_def N_def)
qed

lemma floor_near_tenths:
  fixes t :: rat and k :: int
  assumes "\<bar>t - of_int k / 10\<bar> \<le> 1 / 20"
  shows "(k + 5) div 10 - 1 \<le> \<lfloor>t + 1 / 2\<rfloor>" and "\<lfloor>t + 1 / 2\<rfloor> \<le> (k + 5) div 10"
    and "(k + 5) mod 10 \<noteq> 0 \<Longrightarrow> \<lfloor>t + 1 / 2\<rfloor> = (k + 5) div 10"
proof -
  define m r where "m = (k + 5) div 10" and "r = (k + 5) mod 10"
  have "k + 5 = 10 * m + r" by (simp add: m_def r_def)
  then have "k = 10 * m + r - 5" by simp
  then have k: "(of_int k :: rat) = 10 * of_int m + of_int r - 5" by simp
  have r09: "0 \<le> r" "r \<le> 9" by (simp_all add: r_def)
  define M R :: rat where "M = of_int m" and "R = of_int r"
  have R: "0 \<le> R" "R \<le> 9" "r \<noteq> 0 \<Longrightarrow> 1 \<le> R"
    using r09 by (simp_all add: R_def)
  have "\<bar>t - (10 * M + R - 5) / 10\<bar> \<le> 1 / 20"
    using assms unfolding k M_def R_def .
  then have bounds: "(10 * M + R - 5) / 10 - 1 / 20 \<le> t" "t \<le> (10 * M + R - 5) / 10 + 1 / 20"
    unfolding abs_diff_le_iff by simp_all
  have "M - 1 \<le> t + 1 / 2" using bounds R(1,2) by (simp add: field_simps)
  then have lower: "of_int (m - 1) \<le> t + 1 / 2" by (simp add: M_def)
  have "t + 1 / 2 < M + 1" using bounds R(1,2) by (simp add: field_simps)
  then have upper: "t + 1 / 2 < of_int (m + 1)" by (simp add: M_def)
  show "(k + 5) div 10 - 1 \<le> \<lfloor>t + 1 / 2\<rfloor>"
    using lower unfolding m_def [symmetric] by (simp only: le_floor_iff)
  show "\<lfloor>t + 1 / 2\<rfloor> \<le> (k + 5) div 10"
    using upper unfolding m_def [symmetric] by (simp add: floor_le_iff)
  show "\<lfloor>t + 1 / 2\<rfloor> = (k + 5) div 10" if "(k + 5) mod 10 \<noteq> 0"
  proof -
    from that have "1 \<le> R" by (intro R(3)) (simp add: r_def)
    then have "M \<le> t + 1 / 2" using bounds by (simp add: field_simps)
    then have "of_int m \<le> t + 1 / 2" by (simp add: M_def)
    with upper show ?thesis unfolding m_def [symmetric] by (simp add: floor_unique)
  qed
qed

lemma word_runs_le: "word_runs b s \<le> length s"
proof (induction s arbitrary: b)
  case Nil
  show ?case by simp
next
  case (Cons c cs)
  from Cons [of True] Cons [of False] show ?case by (cases "is_space c") auto
qed

lemma number_tokens_le: "number_tokens st s \<le> length s"
  by (induction st s rule: number_tokens.induct) auto


lemma spec_counts_le:
  "wordCount_spec s \<le> length s" "specialCharCount_spec s \<le> length s"
  "numberTokenCount_spec s \<le> length s"
  by (simp_all add: wordCount_spec_def specialCharCount_spec_def numberTokenCount_spec_def
      word_runs_le number_tokens_le)

lemma calculateTokens_spec_counts:
  "calculateTokens s =
     (if s = [] then 0
      else max 1 (Math_round (weighted_sum (wordCount_spec s) (specialCharCount_spec s)
                                (numberTokenCount_spec s))))"
  unfolding calculateTokens_def Let_def wordCount_refines special_refines numbers_refines
    wordCount_spec_def numberTokenCount_spec_def ..

lemma calculateTokens_decimal:
  assumes "s \<noteq> []" "length s \<le> 2 ^ 32"
    and k_def: "k = 13 * int (wordCount_spec s) + 3 * int (specialCharCount_spec s)
                 + 5 * int (numberTokenCount_spec s)"
  shows "max 1 ((k + 5) div 10 - 1) \<le> calculateTokens s"
    and "calculateTokens s \<le> max 1 ((k + 5) div 10)"
    and "(k + 5) mod 10 \<noteq> 0 \<Longrightarrow> calculateTokens s = max 1 ((k + 5) div 10)"
proof -
  define w c n where "w = wordCount_spec s" and "c = specialCharCount_spec s"
    and "n = numberTokenCount_spec s"
  define t where "t = weighted_sum w c n"
  have le: "w \<le> 2 ^ 32" "c \<le> 2 ^ 32" "n \<le> 2 ^ 32"
    using spec_counts_le [of s] assms(2) by (simp_all add: w_def c_def n_def)
  have "(13 * of_nat w + 3 * of_nat c + 5 * of_nat n :: rat) = of_int k"
    by (simp add: k_def w_def c_def n_def)
  with weighted_sum_error [OF le] have near: "\<bar>t - of_int k / 10\<bar> \<le> 1 / 20"
    by (simp add: t_def)
  have calc: "calculateTokens s = max 1 \<lfloor>t + 1 / 2\<rfloor>"
    using assms(1) by (simp add: calculateTokens_spec_counts Math_round_def t_def w_def c_def n_def)
  show "max 1 ((k + 5) div 10 - 1) \<le> calculateTokens s"
    using floor_near_tenths(1) [OF near] unfolding calc by simp
  show "calculateTokens s \<le> max 1 ((k + 5) div 10)"
    using floor_near_tenths(2) [OF near] unfolding calc by simp
  show "calculateTokens s = max 1 ((k + 5) div 10)" if "(k + 5) mod 10 \<noteq> 0"
    using floor_near_tenths(3) [OF near that] unfolding calc by simp
qed

text \<open>
  C8. \<open>calculateTokens\<close> is 0 on the empty string and otherwise
  \<open>max(1, round(wordCount * 1.3 + specialCharCount * 0.3 + numberTokenCount * 0.5))\<close>,
  where the three counts are those of the specification (the whitespace-delimited runs,
  the structural characters, the digit runs optionally followed by a dot and more
  digits), the weights are the binary64 numbers nearest to 1.3, 0.3 and 0.5, each product
  and each sum is rounded to binary64, and \<open>round\<close> is the floor of the sum plus one
  half. Against the decimal weights: for a text of at most \<open>2 ^ 32\<close> characters, with
  \<open>k = 13 * wordCount + 3 * specialCharCount + 5 * numberTokenCount\<close>, the result is
  \<open>max(1, (k + 5) div 10)\<close>, the decimal sum \<open>k / 10\<close> rounded half up, unless \<open>k / 10\<close>
  is exactly half-way between two integers, where it is that or one less. On a non-empty
  string the result is at least 1.
\<close>

theorem calculateTokens_formula:
  "calculateTokens text =
     (if text = [] then 0
      else max 1 \<lfloor>fl (fl (fl (of_nat (wordCount_spec text) * fl (13 / 10))
                          + fl (of_nat (specialCharCount_spec text) * fl (3 / 10)))
                      + fl (of_nat (numberTokenCount_spec text) * fl (5 / 10))) + 1 / 2\<rfloor>)
   \<and> fl (13 / 10) = 5854679515581645 / 2 ^ 52
   \<and> fl (3 / 10) = 5404319552844595 / 2 ^ 54
   \<and> fl (5 / 10) = 1 / 2
   \<and> (text \<noteq> [] \<and> length text \<le> 2 ^ 32 \<longrightarrow>
        max 1 ((13 * int (wordCount_spec text) + 3 * int (specialCharCount_spec text)
                  + 5 * int (numberTokenCount_spec text) + 5) div 10 - 1)
          \<le> calculateTokens text
        \<and> calculateTokens text
          \<le> max 1 ((13 * int (wordCount_spec text) + 3 * int (specialCharCount_spec text)
                  + 5 * int (numberTokenCount_spec text) + 5) div 10)
        \<and> ((13 * int (wordCount_spec text) + 3 * int (specialCharCount_spec text)
                  + 5 * int (numberTokenCount_spec text) + 5) mod 10 \<noteq> 0 \<longrightarrow>
            calculateTokens text
            = max 1 ((13 * int (wordCount_spec text) + 3 * int (specialCharCount_spec text)
                  + 5 * int (numberTokenCount_spec text) + 5) div 10)))
   \<and> calculateTokens [] = 0
   \<and> (text \<noteq> [] \<longrightarrow> 1 \<le> calculateTokens text)"
proof -
  have formula: "calculateTokens text =
     (if text = [] then 0
      else max 1 \<lfloor>fl (fl (fl (of_nat (wordCount_spec text) * fl (13 / 10))
                          + fl (of_nat (specialCharCount_spec text) * fl (3 / 10)))
                      + fl (of_nat (numberTokenCount_spec text) * fl (5 / 10))) + 1 / 2\<rfloor>)"
    unfolding calculateTokens_spec_counts weighted_sum_def js_add_def js_mul_def Math_round_def
      lit_1_3_def lit_0_3_def lit_0_5_def ..
  have literals: "fl (13 / 10) = 5854679515581645 / 2 ^ 52"
    "fl (3 / 10) = 5404319552844595 / 2 ^ 54" "fl (5 / 10) = 1 / 2"
    using literal_values unfolding lit_1_3_def lit_0_3_def lit_0_5_def by blast+
  have empty: "calculateTokens [] = 0" by (simp add: calculateTokens_def)
  have floor1: "text \<noteq> [] \<longrightarrow> 1 \<le> calculateTokens text"
    by (simp add: calculateTokens_spec_counts)
  from formula literals empty floor1
    calculateTokens_decimal [of "text", OF _ _ refl]
  show ?thesis by blast
qed

lemma example_object_units:
  "example_object = [123, 34, 97, 34, 58, 32, 49, 44, 32, 34, 98, 34, 58, 32, 50, 50, 46, 53, 125]"
  by (simp add: example_object_def units_def)

lemma example_object_counts:
  "wordCount_spec example_object = 4" "specialCharCount_spec example_object = 9"
  "numberTokenCount_spec example_object = 2"
  by (simp_all add: example_object_units wordCount_spec_def specialCharCount_spec_def
      numberTokenCount_spec_def is_space_def is_special_def is_digit_def)

theorem calculateTokens_formula_witness:
  "example_object \<noteq> [] \<and> length example_object \<le> 2 ^ 32
   \<and> (13 * int (wordCount_spec example_object) + 3 * int (specialCharCount_spec example_object)
        + 5 * int (numberTokenCount_spec example_object) + 5) mod 10 \<noteq> 0
   \<and> wordCount_spec example_object = 4 \<and> specialCharCount_spec example_object = 9
   \<and> numberTokenCount_spec example_object = 2
   \<and> calculateTokens example_object = 9"
proof -
  have ne: "example_object \<noteq> [] \<and> length example_object \<le> 2 ^ 32"
    by (simp add: example_object_units)
  have tie: "(13 * int (wordCount_spec example_object)
              + 3 * int (specialCharCount_spec example_object)
              + 5 * int (numberTokenCount_spec example_object) + 5) mod 10 \<noteq> 0"
    by (simp add: example_object_counts)
  note decimal = calculateTokens_formula [of example_object, THEN conjunct2, THEN conjunct2,
      THEN conjunct2, THEN conjunct2, THEN conjunct1, THEN mp, OF ne]
  from decimal [THEN conjunct2, THEN conjunct2, THEN mp, OF tie]
  have "calculateTokens example_object = 9"
    by (simp add: example_object_counts)
  with ne tie example_object_counts show ?thesis by blast
qed

lemma example_json_units: "example_json = [123, 34, 97, 34, 58, 49, 125]"
  by (simp add: example_json_def units_def)

lemma example_json_words: "split_space example_json = [example_json]"
  by (simp add: example_json_units split_space.simps [of "[123, 34, 97, 34, 58, 49, 125]"]
      is_space_def)

lemma example_json_special: "match_special example_json = [[123], [34], [34], [58], [125]]"
  by (simp add: example_json_units match_special_def is_special_def)

lemma example_json_numbers: "match_numbers example_json = [[49]]"
  by (simp add: example_json_units match_numbers.simps is_digit_def)

lemma weighted_sum_1_5_1: "weighted_sum 1 5 1 = fl (33 / 10)" "Math_round (weighted_sum 1 5 1) = 3"
  by code_simp+

text \<open>
  C9, as the code has it. On \<open>{"a":1}\<close> the counts are one word, five special characters
  (two braces, two quotes, one colon) and one number; the weighted sum is the binary64
  number 3.3, and the estimate is 3.
\<close>

theorem estimate_example:
  "length example_json = 7
   \<and> length (filter (\<lambda>word. length word > 0) (split_space example_json)) = 1
   \<and> length (match_special example_json) = 5
   \<and> length (match_numbers example_json) = 1
   \<and> weighted_sum 1 5 1 = fl (33 / 10)
   \<and> Math_round (weighted_sum 1 5 1) = 3
   \<and> calculateTokens example_json = 3"
proof -
  have w: "length (filter (\<lambda>word. length word > 0) (split_space example_json)) = 1"
    by (simp add: example_json_words) (simp add: example_json_units)
  have s: "length (match_special example_json) = 5"
    by (simp add: example_json_special)
  have n: "length (match_numbers example_json) = 1"
    by (simp add: example_json_numbers)
  have ne: "example_json \<noteq> []" and len: "length example_json = 7"
    by (simp_all add: example_json_units)
  have "calculateTokens example_json = max 1 (Math_round (weighted_sum 1 5 1))"
    unfolding calculateTokens_def Let_def w s n using ne by (simp only: if_False)
  then have "calculateTokens example_json = 3"
    by (simp only: weighted_sum_1_5_1(2))
  with w s n len weighted_sum_1_5_1 show ?thesis by blast
qed

text \<open>
  C9, as stated, fails: the count of special characters of \<open>{"a":1}\<close> is 5, not 4.
\<close>

theorem estimate_example_counterexample:
  "length (match_special example_json) = 5 \<and> length (match_special example_json) \<noteq> 4"
  by (simp add: example_json_special)

end
